theory Spec2Isabelle
  imports Main "HOL-Library.Word"
begin

section \<open>Service-worker registration and update detection of DIM\<close>

text \<open>
  A shallow embedding of \<^verbatim>\<open>src/app/register-service-worker.ts\<close>.  Pure code is a HOL
  function; a callback of the module is a function from the page's state to the next
  state; what the module does to the outside (logging, reporting, reloading, posting a
  message, notifying an observer) is recorded, in order, as a list of effects.
\<close>

subsection \<open>Strings and numbers of the language\<close>

text \<open>
  A JavaScript string is a sequence of UTF-16 code units.  \<open>str\<close> writes an ASCII literal
  as such a sequence.
\<close>

type_synonym code_unit = "16 word"
type_synonym js_string = "code_unit list"

definition str :: "string \<Rightarrow> js_string" where
  "str = map of_char"

text \<open>
  A Number that arises from \<^verbatim>\<open>parseInt\<close>: not-a-number, an infinity, or a finite double
  that is an integer, kept by its exact value (\<open>-0\<close> and \<open>+0\<close> compare equal and are both
  \<open>Finite 0\<close>).
\<close>

datatype number = NaN | NegInfinity | Finite int | PosInfinity

text \<open>The relational operators: every comparison with \<open>NaN\<close> is false.\<close>

fun js_lt :: "number \<Rightarrow> number \<Rightarrow> bool" where
  "js_lt NaN y = False"
| "js_lt x NaN = False"
| "js_lt (Finite a) (Finite b) = (a < b)"
| "js_lt NegInfinity (Finite b) = True"
| "js_lt NegInfinity PosInfinity = True"
| "js_lt (Finite a) PosInfinity = True"
| "js_lt x y = False"

definition js_gt :: "number \<Rightarrow> number \<Rightarrow> bool" where
  "js_gt x y = js_lt y x"

text \<open>
  The Number value of a non-negative integer: itself below \<open>2^53\<close>, otherwise rounded to
  53 significant bits, ties to even, and infinite from \<open>2^1024\<close> on.
\<close>

function bit_length :: "int \<Rightarrow> nat" where
  "bit_length n = (if n \<le> 0 then 0 else Suc (bit_length (n div 2)))"
  by pat_completeness auto
termination
  by (relation "measure nat") auto

declare bit_length.simps [simp del]

definition roundToDouble :: "int \<Rightarrow> number" where
  "roundToDouble m =
     (if m < 2 ^ 53 then Finite m
      else
        let e = bit_length m - 53;
            q = m div 2 ^ e;
            r = m mod 2 ^ e;
            h = 2 ^ (e - 1);
            q' = (if h < r \<or> (r = h \<and> odd q) then q + 1 else q);
            v = q' * 2 ^ e
        in if 2 ^ 1024 \<le> v then PosInfinity else Finite v)"

definition negate :: "number \<Rightarrow> number" where
  "negate x = (case x of NaN \<Rightarrow> NaN | NegInfinity \<Rightarrow> PosInfinity
                | Finite v \<Rightarrow> Finite (- v) | PosInfinity \<Rightarrow> NegInfinity)"

subsection \<open>\<^verbatim>\<open>String.prototype.split\<close> and \<^verbatim>\<open>parseInt\<close>\<close>

text \<open>
  \<^verbatim>\<open>s.split(sep)\<close> for a separator of one code unit: the pieces between the separators,
  empty pieces kept; the empty string gives one empty piece.
\<close>

fun split_js :: "code_unit \<Rightarrow> js_string \<Rightarrow> js_string list" where
  "split_js sep [] = [[]]"
| "split_js sep (c # cs) =
     (if c = sep then [] # split_js sep cs
      else (case split_js sep cs of
              [] \<Rightarrow> [[c]]
            | p # ps \<Rightarrow> (c # p) # ps))"

definition dot :: code_unit where
  "dot = 0x2E"

text \<open>
  \<^verbatim>\<open>parseInt(string, 10)\<close>: leading white space and line terminators are dropped, one
  sign is read, then the longest run of decimal digits; no digit gives \<open>NaN\<close>.  Radix 10 is
  given, so no \<^verbatim>\<open>0x\<close> prefix is recognised.  The digits are taken exactly before rounding.
\<close>

definition isStrWhiteSpaceChar :: "code_unit \<Rightarrow> bool" where
  "isStrWhiteSpaceChar c \<longleftrightarrow>
     c = 0x0009 \<or> c = 0x000A \<or> c = 0x000B \<or> c = 0x000C \<or> c = 0x000D \<or> c = 0x0020 \<or>
     c = 0x00A0 \<or> c = 0x1680 \<or> (0x2000 \<le> c \<and> c \<le> 0x200A) \<or> c = 0x2028 \<or>
     c = 0x2029 \<or> c = 0x202F \<or> c = 0x205F \<or> c = 0x3000 \<or> c = 0xFEFF"

definition isDigit :: "code_unit \<Rightarrow> bool" where
  "isDigit c \<longleftrightarrow> 0x30 \<le> c \<and> c \<le> 0x39"

definition digitValue :: "code_unit \<Rightarrow> int" where
  "digitValue c = uint c - 48"

definition mathInt :: "js_string \<Rightarrow> int" where
  "mathInt Z = foldl (\<lambda>acc c. 10 * acc + digitValue c) 0 Z"

definition parseInt :: "js_string \<Rightarrow> number" where
  "parseInt inputString =
     (let S = dropWhile isStrWhiteSpaceChar inputString;
          negative = (case S of [] \<Rightarrow> False | c # _ \<Rightarrow> c = 0x2D);
          S' = (case S of [] \<Rightarrow> [] | c # rest \<Rightarrow> if c = 0x2B \<or> c = 0x2D then rest else S);
          Z = takeWhile isDigit S'
      in if Z = [] then NaN
         else if negative then negate (roundToDouble (mathInt Z))
         else roundToDouble (mathInt Z))"

subsection \<open>Effects\<close>

text \<open>
  What the module does to the outside.  The log functions take the tag \<^verbatim>\<open>'SW'\<close>, a
  message and further values: \<open>Log\<close> keeps the level and the message.  The others are
  \<^verbatim>\<open>reportException\<close>, \<^verbatim>\<open>window.location.reload()\<close>, \<^verbatim>\<open>setTimeout\<close> of a reload with its
  delay, the setting of \<^verbatim>\<open>onstatechange\<close> by \<^verbatim>\<open>reloadDIM\<close>, \<^verbatim>\<open>postMessage('skipWaiting')\<close>,
  \<^verbatim>\<open>registration.update()\<close>, and a value or an error delivered to the observers of
  \<^verbatim>\<open>dimNeedsUpdate$\<close>.
\<close>

datatype level = Info | Warn | Error

datatype effect =
    Log level string
  | ReportException
  | LocationReload
  | SetTimeoutReload nat
  | SetOnStateChange
  | PostSkipWaiting
  | RegistrationUpdate
  | Notify bool
  | NotifyError

subsection \<open>\<^verbatim>\<open>isNewVersion\<close>\<close>

text \<open>
  The \<^verbatim>\<open>for\<close> loop of \<^verbatim>\<open>isNewVersion\<close>, from index \<open>i\<close>: the result is the pair
  \<open>(newerAvailable, olderAvailable)\<close> at its end.  Both reads \<open>parts ! i\<close> are in range by
  the loop condition.
\<close>

function compareSegments :: "nat \<Rightarrow> js_string list \<Rightarrow> js_string list \<Rightarrow> bool \<times> bool" where
  "compareSegments i parts currentVersionParts =
     (if i < length parts \<and> i < length currentVersionParts then
        (let versionSegment = parseInt (parts ! i);
             currentVersionSegment = parseInt (currentVersionParts ! i)
         in if js_gt versionSegment currentVersionSegment then (True, False)
            else if js_lt versionSegment currentVersionSegment then (False, True)
            else compareSegments (i + 1) parts currentVersionParts)
      else (False, False))"
  by pat_completeness auto
termination
  by (relation "measure (\<lambda>(i, parts, currentVersionParts). length parts - i)") auto

declare compareSegments.simps [simp del]

definition isNewVersion :: "js_string \<Rightarrow> js_string \<Rightarrow> effect list \<times> bool" where
  "isNewVersion version currentVersion =
     (let parts = split_js dot version;
          currentVersionParts = split_js dot currentVersion;
          (newerAvailable, olderAvailable) = compareSegments 0 parts currentVersionParts
      in (if olderAvailable then [Log Warn ''Server version is older than current version'']
          else if newerAvailable then
            [Log Info ''Found newer version on server, attempting to update'']
          else [],
          newerAvailable))"

subsection \<open>Build constants, exceptions, promises and observables\<close>

text \<open>
  \<^verbatim>\<open>$DIM_VERSION\<close> and \<^verbatim>\<open>$featureFlags.debugSW\<close> are set by the build and declared outside
  this module: they are parameters.
\<close>

record config =
  DIM_VERSION :: js_string
  debugSW :: bool

text \<open>
  A thrown value: one raised by the browser (a rejected \<^verbatim>\<open>fetch\<close>, \<^verbatim>\<open>json\<close>, \<^verbatim>\<open>update\<close>,
  \<^verbatim>\<open>getRegistration\<close>, a throwing \<^verbatim>\<open>postMessage\<close>), an \<^verbatim>\<open>Error\<close> made by the module
  with its message, or the response object that \<^verbatim>\<open>getServerVersion\<close> throws.
\<close>

datatype exn = BrowserError | ErrorObject string | ResponseObject

text \<open>
  A settled promise is a value of \<open>exn + 'a\<close>, \<open>Inl\<close> the rejection.  An observable that
  delivers at most one value (\<^verbatim>\<open>from(promise)\<close>, \<^verbatim>\<open>of(v)\<close>, \<^verbatim>\<open>empty()\<close>) is what it
  delivers.
\<close>

datatype 'a delivery = Emits 'a | Completes | Fails exn

definition from_promise :: "exn + 'a \<Rightarrow> 'a delivery" where
  "from_promise p = (case p of Inl e \<Rightarrow> Fails e | Inr v \<Rightarrow> Emits v)"

text \<open>\<^verbatim>\<open>catchError((_err) => empty())\<close>\<close>

definition catchError_empty :: "'a delivery \<Rightarrow> 'a delivery" where
  "catchError_empty d = (case d of Fails e \<Rightarrow> Completes | Emits v \<Rightarrow> Emits v | Completes \<Rightarrow> Completes)"

subsection \<open>\<^verbatim>\<open>getServerVersion\<close>\<close>

text \<open>
  What the network answers to \<^verbatim>\<open>fetch('/version.json')\<close>: the fetch rejects, the response
  is not \<^verbatim>\<open>ok\<close>, reading its JSON rejects, or the JSON is read and its \<^verbatim>\<open>version\<close>
  property is absent or a string (the type the module gives it).  The empty string is
  falsy, as an absent property is.
\<close>

datatype fetch_outcome = FetchRejected | ResponseNotOk | JsonRejected | JsonData "js_string option"

definition getServerVersion :: "fetch_outcome \<Rightarrow> effect list \<times> (exn + js_string)" where
  "getServerVersion outcome =
     (case outcome of
        FetchRejected \<Rightarrow> ([], Inl BrowserError)
      | ResponseNotOk \<Rightarrow> ([], Inl ResponseObject)
      | JsonRejected \<Rightarrow> ([], Inl BrowserError)
      | JsonData version \<Rightarrow>
          (case version of
             None \<Rightarrow> ([], Inl (ErrorObject ''No version property''))
           | Some v \<Rightarrow>
               if v = [] then ([], Inl (ErrorObject ''No version property''))
               else ([Log Info ''Got server version''], Inr v)))"

subsection \<open>\<^verbatim>\<open>updateServiceWorker\<close>\<close>

text \<open>
  What the page sees of its \<^verbatim>\<open>ServiceWorkerRegistration\<close> during one call: how
  \<^verbatim>\<open>registration.update()\<close> settles, and whether \<^verbatim>\<open>registration.waiting\<close> and
  \<^verbatim>\<open>registration.installing\<close> are set when they are read.
\<close>

record registration =
  update :: "exn + unit"
  waiting :: bool
  installing :: bool

text \<open>
  The variable \<^verbatim>\<open>updateServiceWorker\<close> holds \<^verbatim>\<open>() => Promise.resolve(false)\<close> until
  \<^verbatim>\<open>register\<close> has resolved, and the closure over the registration from then on.
\<close>

datatype updater = ResolveFalse | CheckRegistration

text \<open>
  The value that \<^verbatim>\<open>.catch(...)\<close> resolves to is the \<^verbatim>\<open>false\<close> of the handler after a
  rejection and the value of \<^verbatim>\<open>update()\<close> otherwise; the callback of \<^verbatim>\<open>.then\<close> takes no
  argument.
\<close>

datatype caught = HandlerFalse | UpdateValue

definition updateServiceWorker ::
  "config \<Rightarrow> updater \<Rightarrow> registration \<Rightarrow> effect list \<times> (exn + bool)" where
  "updateServiceWorker cfg u reg =
     (case u of
        ResolveFalse \<Rightarrow> ([], Inr False)
      | CheckRegistration \<Rightarrow>
          (let called = [Log Info ''Checking for service worker update.'', RegistrationUpdate];
               (handled, afterCatch) =
                 (case update reg of
                    Inl err \<Rightarrow>
                      (if debugSW cfg
                       then [Log Error ''Unable to update service worker.'', ReportException]
                       else [],
                       Inr HandlerFalse)
                  | Inr _ \<Rightarrow> ([], Inr UpdateValue));
               (checked, result) =
                 (case afterCatch of
                    Inl err \<Rightarrow> ([], Inl err)
                  | Inr _ \<Rightarrow>
                      if waiting reg
                      then ([Log Info ''New content is available; please refresh. (from update)''],
                            Inr True)
                      else ([Log Info ''Updated, but theres not a new worker waiting''],
                            Inr False))
           in (called @ handled @ checked, result)))"

subsection \<open>The state of the page\<close>

text \<open>
  The module's variables and the memory of its stream operators, for a page whose
  \<^verbatim>\<open>dimNeedsUpdate$\<close> is subscribed to from the start:
  \<^item> \<open>updateServiceWorker_var\<close>: the variable \<^verbatim>\<open>updateServiceWorker\<close>;
  \<^item> \<open>onupdatefound_set\<close>, \<open>onstatechange_set\<close>: whether the two handlers of
    \<^verbatim>\<open>registerServiceWorker\<close> are installed;
  \<^item> \<open>serviceWorkerUpdated\<close>: the value of the \<^verbatim>\<open>BehaviorSubject\<close>;
  \<^item> \<open>stopped\<close>: \<^verbatim>\<open>serverVersionChanged$\<close> has delivered an error, which ends the timer;
  \<^item> \<open>lastCompared\<close>: the last value let through by the first \<^verbatim>\<open>distinctUntilChanged\<close>;
  \<^item> \<open>serverVersionChanged\<close>: the last value of \<^verbatim>\<open>serverVersionChanged$\<close>, as
    \<^verbatim>\<open>combineLatest\<close> keeps it (\<open>None\<close> before the first);
  \<^item> \<open>dimNeedsUpdate\<close>: the exported variable;
  \<^item> \<open>lastNotified\<close>: the last value let through by the second \<^verbatim>\<open>distinctUntilChanged\<close>;
  \<^item> \<open>listeners\<close>: the flag \<^verbatim>\<open>preventDevToolsReloadLoop\<close> of each registered
    \<^verbatim>\<open>controllerchange\<close> listener, in the order of registration;
  \<^item> \<open>effects\<close>: what the page has done so far.
\<close>

record page =
  updateServiceWorker_var :: updater
  onupdatefound_set :: bool
  onstatechange_set :: bool
  serviceWorkerUpdated :: bool
  stopped :: bool
  lastCompared :: "bool option"
  serverVersionChanged :: "bool option"
  dimNeedsUpdate :: bool
  lastNotified :: "bool option"
  listeners :: "bool list"
  effects :: "effect list"

definition page0 :: page where
  "page0 = \<lparr>updateServiceWorker_var = ResolveFalse, onupdatefound_set = False,
            onstatechange_set = False, serviceWorkerUpdated = False, stopped = False,
            lastCompared = None, serverVersionChanged = None, dimNeedsUpdate = False,
            lastNotified = None, listeners = [], effects = []\<rparr>"

definition emit :: "effect list \<Rightarrow> page \<Rightarrow> page" where
  "emit es s = s\<lparr>effects := effects s @ es\<rparr>"

subsection \<open>\<^verbatim>\<open>dimNeedsUpdate$\<close>\<close>

text \<open>
  \<^verbatim>\<open>combineLatest\<close> with the selector \<^verbatim>\<open>serverVersionChanged || updated\<close>, then \<^verbatim>\<open>tap\<close>
  and \<^verbatim>\<open>distinctUntilChanged\<close>, run each time one of the two sources has a new value:
  nothing is combined before \<^verbatim>\<open>serverVersionChanged$\<close> has had its first value.
\<close>

definition combine :: "page \<Rightarrow> page" where
  "combine s =
     (case serverVersionChanged s of
        None \<Rightarrow> s
      | Some changed \<Rightarrow>
          (let needsUpdate = (changed \<or> serviceWorkerUpdated s);
               s' = s\<lparr>dimNeedsUpdate := needsUpdate\<rparr>
           in if lastNotified s' = Some needsUpdate then s'
              else emit [Notify needsUpdate] (s'\<lparr>lastNotified := Some needsUpdate\<rparr>)))"

text \<open>A value of \<^verbatim>\<open>serverVersionChanged$\<close>, and \<^verbatim>\<open>serviceWorkerUpdated$.next(true)\<close>.\<close>

definition serverVersionChanged_next :: "bool \<Rightarrow> page \<Rightarrow> page" where
  "serverVersionChanged_next v s = combine (s\<lparr>serverVersionChanged := Some v\<rparr>)"

definition serviceWorkerUpdated_next :: "bool \<Rightarrow> page \<Rightarrow> page" where
  "serviceWorkerUpdated_next v s = combine (s\<lparr>serviceWorkerUpdated := v\<rparr>)"

subsection \<open>\<^verbatim>\<open>serverVersionChanged$\<close>\<close>

text \<open>
  One tick of the timer, together with the promises it starts: the fetch of a tick
  settles, and the update it may attempt settles, before the next tick (the ticks are
  15 minutes apart).  An inner observable that fails makes \<^verbatim>\<open>switchMap\<close> deliver the error,
  which ends the stream; one that completes without a value leaves it as it is.
\<close>

record tick =
  fetched :: fetch_outcome
  registrationSeen :: registration

definition fail_stream :: "page \<Rightarrow> page" where
  "fail_stream s = emit [NotifyError] (s\<lparr>stopped := True\<rparr>)"

definition pollTick :: "config \<Rightarrow> tick \<Rightarrow> page \<Rightarrow> page" where
  "pollTick cfg t s =
     (if stopped s then s
      else
        let (fetchLog, got) = getServerVersion (fetched t);
            s1 = emit fetchLog s
        in case catchError_empty (from_promise got) of
             Fails e \<Rightarrow> fail_stream s1
           | Completes \<Rightarrow> s1
           | Emits version \<Rightarrow>
               (let (compareLog, needsUpdate) = isNewVersion version (DIM_VERSION cfg);
                    s2 = emit compareLog s1
                in if lastCompared s2 = Some needsUpdate then s2
                   else
                     let s3 = s2\<lparr>lastCompared := Some needsUpdate\<rparr>;
                         (updateLog, inner) =
                           (if needsUpdate
                            then (let (es, p) = updateServiceWorker cfg
                                        (updateServiceWorker_var s3) (registrationSeen t)
                                  in (es, from_promise p))
                            else ([], Emits False));
                         s4 = emit updateLog s3
                     in case inner of
                          Fails e \<Rightarrow> fail_stream s4
                        | Completes \<Rightarrow> s4
                        | Emits v \<Rightarrow> serverVersionChanged_next v s4))"

subsection \<open>\<^verbatim>\<open>registerServiceWorker\<close> and its handlers\<close>

datatype worker_state = Parsed | Installing | Installed | Activating | Activated | Redundant

text \<open>
  The listener of \<^verbatim>\<open>controllerchange\<close> that \<^verbatim>\<open>onstatechange\<close> registers, run on its flag:
  the new flag, and whether it reloads.  The event runs every registered listener.
\<close>

definition listener :: "bool \<Rightarrow> bool \<times> effect list" where
  "listener preventDevToolsReloadLoop =
     (if preventDevToolsReloadLoop then (preventDevToolsReloadLoop, [])
      else (True, [LocationReload]))"

fun dispatch :: "bool list \<Rightarrow> bool list \<times> effect list" where
  "dispatch [] = ([], [])"
| "dispatch (flag # flags) =
     (let (flag', es) = listener flag;
          (flags', es') = dispatch flags
      in (flag' # flags', es @ es'))"

definition controllerchange :: "page \<Rightarrow> page" where
  "controllerchange s =
     (let (flags, es) = dispatch (listeners s)
      in emit es (s\<lparr>listeners := flags\<rparr>))"

text \<open>
  \<^verbatim>\<open>installingWorker.onstatechange\<close>, with the state of the worker and whether
  \<^verbatim>\<open>navigator.serviceWorker.controller\<close> is set.
\<close>

definition onstatechange :: "config \<Rightarrow> worker_state \<Rightarrow> bool \<Rightarrow> page \<Rightarrow> page" where
  "onstatechange cfg state controller s =
     (if state = Installed then
        (if controller then
           (let s1 = emit [Log Info ''New content is available; please refresh. (from onupdatefound)''] s;
                s2 = serviceWorkerUpdated_next True s1
            in s2\<lparr>listeners := listeners s2 @ [False]\<rparr>)
         else
           (if debugSW cfg then emit [Log Info ''Content is cached for offline use.''] s
            else s))
      else
        (if debugSW cfg then emit [Log Info ''New Service Worker state: ''] s else s))"

definition onupdatefound :: "config \<Rightarrow> page \<Rightarrow> page" where
  "onupdatefound cfg s =
     (let s1 = (if debugSW cfg
                then emit [Log Info ''A new Service Worker version has been found...''] s
                else s)
      in s1\<lparr>onstatechange_set := True\<rparr>)"

text \<open>
  \<^verbatim>\<open>registerServiceWorker\<close>, with whether \<^verbatim>\<open>'serviceWorker' in navigator\<close> holds and how
  \<^verbatim>\<open>register\<close> settles once the window has loaded.
\<close>

definition registerServiceWorker :: "config \<Rightarrow> bool \<Rightarrow> exn + unit \<Rightarrow> page \<Rightarrow> page" where
  "registerServiceWorker cfg supported registered s =
     (if \<not> supported then s
      else case registered of
             Inr _ \<Rightarrow> s\<lparr>onupdatefound_set := True, updateServiceWorker_var := CheckRegistration\<rparr>
           | Inl err \<Rightarrow> emit [Log Error ''Unable to register service worker.'', ReportException] s)"

text \<open>What happens to the page, and a run of the page over a list of events.\<close>

datatype event =
    Register bool "exn + unit"
  | UpdateFound
  | StateChange worker_state bool
  | ControllerChange
  | PollTick tick

definition step :: "config \<Rightarrow> page \<Rightarrow> event \<Rightarrow> page" where
  "step cfg s ev =
     (case ev of
        Register supported registered \<Rightarrow> registerServiceWorker cfg supported registered s
      | UpdateFound \<Rightarrow> if onupdatefound_set s then onupdatefound cfg s else s
      | StateChange state controller \<Rightarrow>
          if onstatechange_set s then onstatechange cfg state controller s else s
      | ControllerChange \<Rightarrow> controllerchange s
      | PollTick t \<Rightarrow> pollTick cfg t s)"

definition run :: "config \<Rightarrow> event list \<Rightarrow> page \<Rightarrow> page" where
  "run cfg evs s = foldl (step cfg) s evs"

subsection \<open>\<^verbatim>\<open>reloadDIM\<close>\<close>

text \<open>
  What the browser answers during one call: how \<^verbatim>\<open>getRegistration()\<close> settles (rejected,
  resolved to \<^verbatim>\<open>undefined\<close>, or to a registration) and whether \<^verbatim>\<open>postMessage\<close> throws.
  \<open>reloadDIM_try\<close> is the body of the \<^verbatim>\<open>try\<close> block: what it did, and the exception that
  left it, if any.
\<close>

record reload_call =
  getRegistration :: "exn + registration option"
  postMessage :: "exn + unit"

definition reloadDIM_try :: "reload_call \<Rightarrow> effect list \<times> (exn + unit)" where
  "reloadDIM_try c =
     (case getRegistration c of
        Inl e \<Rightarrow> ([], Inl e)
      | Inr None \<Rightarrow> ([Log Error ''No registration!'', LocationReload], Inr ())
      | Inr (Some reg) \<Rightarrow>
          if \<not> waiting reg then
            (if installing reg
             then ([Log Error ''registration.waiting is null!'',
                    Log Info ''found an installing service worker'',
                    SetOnStateChange], Inr ())
             else ([Log Error ''registration.waiting is null!'', LocationReload], Inr ()))
          else
            (case postMessage c of
               Inl e \<Rightarrow> ([Log Info ''posting skip waiting''], Inl e)
             | Inr _ \<Rightarrow>
                 ([Log Info ''posting skip waiting'', PostSkipWaiting, SetTimeoutReload 2000],
                  Inr ())))"

definition reloadDIM :: "reload_call \<Rightarrow> effect list \<times> (exn + unit)" where
  "reloadDIM c =
     (let (done, left) = reloadDIM_try c
      in case left of
           Inr _ \<Rightarrow> (done, Inr ())
         | Inl e \<Rightarrow> (done @ [Log Error ''Error checking registration:'', LocationReload], Inr ()))"

text \<open>The handler that \<^verbatim>\<open>reloadDIM\<close> sets on an installing worker.\<close>

definition reloadDIM_onstatechange :: "worker_state \<Rightarrow> effect list" where
  "reloadDIM_onstatechange state =
     (if state = Installed
      then [Log Info ''installing service worker installed, skip waiting'', PostSkipWaiting]
      else [])"

subsection \<open>Notions used in the statements\<close>

text \<open>
  The specification's notion of a version, written without the code: a dotted-numeric
  string is one or more segments joined by dots, each a non-empty run of the decimal
  digits, and the number of a segment is the integer its digits denote.
  \<open>decimalDigits\<close> lists the digits, \<open>digitOf\<close> is the place of a digit in that list,
  \<open>leastFirst\<close> reads digits given from the units upwards.
\<close>

definition decimalDigits :: js_string where
  "decimalDigits = str ''0123456789''"

definition digitOf :: "code_unit \<Rightarrow> int" where
  "digitOf c = int (length (takeWhile (\<lambda>d. d \<noteq> c) decimalDigits))"

fun leastFirst :: "js_string \<Rightarrow> int" where
  "leastFirst [] = 0"
| "leastFirst (c # cs) = digitOf c + 10 * leastFirst cs"

definition decimalValue :: "js_string \<Rightarrow> int" where
  "decimalValue segment = leastFirst (rev segment)"

definition decimalSegment :: "js_string \<Rightarrow> bool" where
  "decimalSegment segment \<longleftrightarrow> segment \<noteq> [] \<and> list_all (\<lambda>c. c \<in> set decimalDigits) segment"

fun joinDots :: "js_string list \<Rightarrow> js_string" where
  "joinDots [] = []"
| "joinDots [segment] = segment"
| "joinDots (segment # second # rest) = segment @ str ''.'' @ joinDots (second # rest)"

definition dottedNumeric :: "js_string list \<Rightarrow> bool" where
  "dottedNumeric segments \<longleftrightarrow> segments \<noteq> [] \<and> list_all decimalSegment segments"

text \<open>Every segment denotes an integer below \<open>2^53\<close>.\<close>

definition belowTwo53 :: "js_string list \<Rightarrow> bool" where
  "belowTwo53 segments \<longleftrightarrow> list_all (\<lambda>segment. decimalValue segment < 2 ^ 53) segments"

text \<open>
  Position \<open>k\<close> decides for "newer" in a run of the loop from \<open>i\<close>: it is inside both lists,
  its comparison is "greater", and no position from \<open>i\<close> up to it compares either way.
\<close>

definition decidesNewer :: "nat \<Rightarrow> js_string list \<Rightarrow> js_string list \<Rightarrow> nat \<Rightarrow> bool" where
  "decidesNewer i ps cs k \<longleftrightarrow>
     i \<le> k \<and> k < length ps \<and> k < length cs \<and>
     js_gt (parseInt (ps ! k)) (parseInt (cs ! k)) \<and>
     (\<forall>j. i \<le> j \<and> j < k \<longrightarrow>
        \<not> js_gt (parseInt (ps ! j)) (parseInt (cs ! j)) \<and>
        \<not> js_lt (parseInt (ps ! j)) (parseInt (cs ! j)))"

text \<open>A list with position \<open>i\<close> taken out.\<close>

definition without :: "nat \<Rightarrow> 'a list \<Rightarrow> 'a list" where
  "without i xs = take i xs @ drop (Suc i) xs"

text \<open>How often the page has reloaded, and what the observers have been told.\<close>

definition reloads :: "page \<Rightarrow> nat" where
  "reloads s = count_list (effects s) LocationReload"

definition notifications :: "page \<Rightarrow> effect list" where
  "notifications s = filter (\<lambda>e. case e of Notify b \<Rightarrow> True | _ \<Rightarrow> False) (effects s)"

text \<open>
  The answers of the network that make \<^verbatim>\<open>getServerVersion\<close> throw: a network failure, a
  response that is not \<^verbatim>\<open>ok\<close>, JSON that cannot be read, a missing or empty version.
\<close>

definition swallowed :: "fetch_outcome \<Rightarrow> bool" where
  "swallowed outcome \<longleftrightarrow>
     outcome = FetchRejected \<or> outcome = ResponseNotOk \<or> outcome = JsonRejected \<or>
     outcome = JsonData None \<or> outcome = JsonData (Some [])"

text \<open>
  A later state \<open>s'\<close> of the page keeps the latch of \<open>s\<close>: \<^verbatim>\<open>serviceWorkerUpdated$\<close> is
  true in it, \<open>dimNeedsUpdate\<close> is true in it if it was in \<open>s\<close>, and what the page has done
  since \<open>s\<close> has no notification of false.
\<close>

definition latched :: "page \<Rightarrow> page \<Rightarrow> bool" where
  "latched s s' \<longleftrightarrow>
     serviceWorkerUpdated s' \<and> (dimNeedsUpdate s \<longrightarrow> dimNeedsUpdate s') \<and>
     (\<exists>es. effects s' = effects s @ es \<and> Notify False \<notin> set es)"

subsection \<open>Concrete inputs\<close>

text \<open>A build of version 1.0.0 without and with the debug flag.\<close>

definition quiet :: config where
  "quiet = \<lparr>DIM_VERSION = str ''1.0.0'', debugSW = False\<rparr>"

definition verbose :: config where
  "verbose = \<lparr>DIM_VERSION = str ''1.0.0'', debugSW = True\<rparr>"

text \<open>
  A registration whose update check succeeds, with or without a waiting worker; a tick
  at which the server serves a version; a tick at which the network is down.
\<close>

definition seen :: "bool \<Rightarrow> registration" where
  "seen w = \<lparr>update = Inr (), waiting = w, installing = False\<rparr>"

definition serves :: "string \<Rightarrow> bool \<Rightarrow> event" where
  "serves version w = PollTick \<lparr>fetched = JsonData (Some (str version)), registrationSeen = seen w\<rparr>"

definition offline :: tick where
  "offline = \<lparr>fetched = FetchRejected, registrationSeen = seen False\<rparr>"

text \<open>Calls of \<^verbatim>\<open>reloadDIM\<close> with no registration, and with a rejected \<^verbatim>\<open>getRegistration\<close>.\<close>

definition unregistered :: reload_call where
  "unregistered = \<lparr>getRegistration = Inr None, postMessage = Inr ()\<rparr>"

definition rejecting :: reload_call where
  "rejecting = \<lparr>getRegistration = Inl BrowserError, postMessage = Inr ()\<rparr>"

text \<open>
  A first install: registration succeeds, a worker is found and reaches \<^verbatim>\<open>installed\<close>
  while the page has no controller.
\<close>

definition firstInstall :: "event list" where
  "firstInstall = [Register True (Inr ()), UpdateFound, StateChange Installed False]"

text \<open>
  A registered page that polls a server which deploys 1.0.1, goes back to 1.0.0 and
  deploys 1.0.1 again, a worker waiting throughout; and one that sees 1.0.1, then 1.0.0.
\<close>

definition rollback :: "event list" where
  "rollback = [Register True (Inr ()), serves ''1.0.0'' True, serves ''1.0.1'' True,
               serves ''1.0.1'' True, serves ''1.0.0'' True, serves ''1.0.1'' True]"

definition revert :: "event list" where
  "revert = [Register True (Inr ()), serves ''1.0.1'' True, serves ''1.0.0'' True]"

section \<open>Properties of the version comparison\<close>

lemma js_lt_irrefl: "\<not> js_lt x x"
  by (cases x) auto

lemma js_lt_asym: "js_lt x y \<Longrightarrow> \<not> js_lt y x"
  by (cases x; cases y) auto

lemma js_lt_NaN: "x = NaN \<or> y = NaN \<Longrightarrow> \<not> js_lt x y \<and> \<not> js_gt x y"
  by (cases x; cases y) (auto simp: js_gt_def)

lemma compareSegments_stop:
  "\<not> (i < length ps \<and> i < length cs) \<Longrightarrow> compareSegments i ps cs = (False, False)"
  by (subst compareSegments.simps) auto

lemma compareSegments_step:
  "i < length ps \<Longrightarrow> i < length cs \<Longrightarrow>
   compareSegments i ps cs =
     (if js_gt (parseInt (ps ! i)) (parseInt (cs ! i)) then (True, False)
      else if js_lt (parseInt (ps ! i)) (parseInt (cs ! i)) then (False, True)
      else compareSegments (Suc i) ps cs)"
  by (subst compareSegments.simps) (simp add: Let_def)

lemma compareSegments_swap:
  "compareSegments i cs ps = prod.swap (compareSegments i ps cs)"
proof (induction i ps cs rule: compareSegments.induct)
  case (1 i ps cs)
  show ?case
  proof (cases "i < length ps \<and> i < length cs")
    case False
    then show ?thesis
      by (simp add: compareSegments_stop conj_commute)
  next
    case True
    then have step: "compareSegments (Suc i) cs ps = prod.swap (compareSegments (Suc i) ps cs)"
      if "\<not> js_gt (parseInt (ps ! i)) (parseInt (cs ! i))"
         "\<not> js_lt (parseInt (ps ! i)) (parseInt (cs ! i))"
      using "1.IH" that by simp
    from True show ?thesis
      using step js_lt_asym [of "parseInt (ps ! i)" "parseInt (cs ! i)"]
      by (auto simp: compareSegments_step js_gt_def)
  qed
qed

lemma compareSegments_exclusive:
  "\<not> (fst (compareSegments i ps cs) \<and> snd (compareSegments i ps cs))"
proof (induction i ps cs rule: compareSegments.induct)
  case (1 i ps cs)
  show ?case
  proof (cases "i < length ps \<and> i < length cs")
    case False
    then show ?thesis
      by (simp add: compareSegments_stop)
  next
    case True
    then show ?thesis
      using "1.IH" by (auto simp: compareSegments_step)
  qed
qed

lemma decidesNewer_here:
  "i < length ps \<Longrightarrow> i < length cs \<Longrightarrow> js_gt (parseInt (ps ! i)) (parseInt (cs ! i)) \<Longrightarrow>
   decidesNewer i ps cs i"
  by (auto simp: decidesNewer_def)

lemma decidesNewer_Suc:
  assumes "\<not> js_gt (parseInt (ps ! i)) (parseInt (cs ! i))"
    and "\<not> js_lt (parseInt (ps ! i)) (parseInt (cs ! i))"
  shows "(\<exists>k. decidesNewer i ps cs k) \<longleftrightarrow> (\<exists>k. decidesNewer (Suc i) ps cs k)"
proof
  assume "\<exists>k. decidesNewer i ps cs k"
  then obtain k where k: "decidesNewer i ps cs k" ..
  with assms have "k \<noteq> i" by (auto simp: decidesNewer_def)
  with k have "decidesNewer (Suc i) ps cs k" by (auto simp: decidesNewer_def)
  then show "\<exists>k. decidesNewer (Suc i) ps cs k" ..
next
  assume "\<exists>k. decidesNewer (Suc i) ps cs k"
  then obtain k where k: "decidesNewer (Suc i) ps cs k" ..
  have "decidesNewer i ps cs k"
    unfolding decidesNewer_def
  proof (intro conjI allI impI)
    fix j assume j: "i \<le> j \<and> j < k"
    show "\<not> js_gt (parseInt (ps ! j)) (parseInt (cs ! j))"
      using j k assms by (cases "j = i") (auto simp: decidesNewer_def)
    show "\<not> js_lt (parseInt (ps ! j)) (parseInt (cs ! j))"
      using j k assms by (cases "j = i") (auto simp: decidesNewer_def)
  qed (use k in \<open>auto simp: decidesNewer_def\<close>)
  then show "\<exists>k. decidesNewer i ps cs k" ..
qed

lemma decidesNewer_lt:
  assumes "js_lt (parseInt (ps ! i)) (parseInt (cs ! i))"
  shows "\<not> decidesNewer i ps cs k"
proof
  assume k: "decidesNewer i ps cs k"
  show False
  proof (cases "k = i")
    case True
    with k assms show False
      using js_lt_asym by (auto simp: decidesNewer_def js_gt_def)
  next
    case False
    with k have "i \<le> i \<and> i < k" by (auto simp: decidesNewer_def)
    with k assms show False unfolding decidesNewer_def by blast
  qed
qed

lemma compareSegments_newer_iff:
  "fst (compareSegments i ps cs) \<longleftrightarrow> (\<exists>k. decidesNewer i ps cs k)"
proof (induction i ps cs rule: compareSegments.induct)
  case (1 i ps cs)
  show ?case
  proof (cases "i < length ps \<and> i < length cs")
    case False
    then show ?thesis
      by (auto simp: compareSegments_stop decidesNewer_def)
  next
    case inside: True
    show ?thesis
    proof (cases "js_gt (parseInt (ps ! i)) (parseInt (cs ! i))")
      case True
      with inside show ?thesis
        using decidesNewer_here [of i ps cs] by (auto simp: compareSegments_step)
    next
      case not_gt: False
      show ?thesis
      proof (cases "js_lt (parseInt (ps ! i)) (parseInt (cs ! i))")
        case True
        with inside not_gt show ?thesis
          using decidesNewer_lt [of ps i cs] by (simp add: compareSegments_step)
      next
        case False
        with inside not_gt "1.IH" show ?thesis
          using decidesNewer_Suc [of ps i cs] by (simp add: compareSegments_step)
      qed
    qed
  qed
qed


lemma isDigit_plain:
  "isDigit c \<Longrightarrow> \<not> isStrWhiteSpaceChar c \<and> c \<noteq> 0x2B \<and> c \<noteq> 0x2D"
proof -
  assume d: "isDigit c"
  have "\<not> 0x2000 \<le> c"
    using d order_trans [of "0x2000" c "0x39"] by (auto simp: isDigit_def)
  with d show ?thesis
    by (auto simp: isDigit_def isStrWhiteSpaceChar_def)
qed

lemma roundToDouble_not_NaN: "roundToDouble m \<noteq> NaN"
  by (simp add: roundToDouble_def Let_def)

lemma parseInt_digits:
  assumes "segment \<noteq> []" and "list_all isDigit segment"
  shows "parseInt segment = roundToDouble (mathInt segment)"
proof -
  from assms obtain c rest where seg: "segment = c # rest"
    by (cases segment) auto
  with assms have c: "isDigit c" by simp
  have drop: "dropWhile isStrWhiteSpaceChar segment = segment"
    using isDigit_plain [OF c] by (simp add: seg)
  have take: "takeWhile isDigit segment = segment"
    using assms(2) by (simp add: list_all_iff)
  show ?thesis
    using isDigit_plain [OF c] drop take assms(1)
    by (simp add: parseInt_def seg)
qed

lemma parseInt_exact:
  "segment \<noteq> [] \<Longrightarrow> list_all isDigit segment \<Longrightarrow> mathInt segment < 2 ^ 53 \<Longrightarrow>
   parseInt segment = Finite (mathInt segment)"
  by (simp add: parseInt_digits roundToDouble_def)

lemma isNewVersion_snd:
  "snd (isNewVersion A B) = fst (compareSegments 0 (split_js dot A) (split_js dot B))"
  by (simp add: isNewVersion_def Let_def split: prod.splits)

lemma set_decimalDigits:
  "set decimalDigits = {0x30, 0x31, 0x32, 0x33, 0x34, 0x35, 0x36, 0x37, 0x38, 0x39}"
  by (simp add: decimalDigits_def str_def)

lemma decimal_digit:
  assumes "c \<in> set decimalDigits"
  shows "isDigit c \<and> digitValue c = digitOf c \<and> c \<noteq> dot"
  using assms unfolding set_decimalDigits
  by (auto simp: isDigit_def digitValue_def digitOf_def decimalDigits_def str_def dot_def)

lemma mathInt_snoc: "mathInt (Z @ [c]) = 10 * mathInt Z + digitValue c"
  by (simp add: mathInt_def)

lemma decimalValue_snoc: "decimalValue (Z @ [c]) = digitOf c + 10 * decimalValue Z"
  by (simp add: decimalValue_def)

lemma mathInt_decimalValue:
  "list_all (\<lambda>c. c \<in> set decimalDigits) Z \<Longrightarrow> mathInt Z = decimalValue Z"
proof (induction Z rule: rev_induct)
  case Nil
  show ?case by (simp add: mathInt_def decimalValue_def)
next
  case (snoc c Z)
  then show ?case
    using decimal_digit [of c] by (simp add: mathInt_snoc decimalValue_snoc)
qed

lemma decimalSegment_parseInt:
  assumes "decimalSegment segment" and "decimalValue segment < 2 ^ 53"
  shows "parseInt segment = Finite (decimalValue segment)"
proof -
  from assms(1) have ne: "segment \<noteq> []" and all: "list_all (\<lambda>c. c \<in> set decimalDigits) segment"
    by (simp_all add: decimalSegment_def)
  from all have digits: "list_all isDigit segment"
    using decimal_digit by (auto simp: list_all_iff)
  from parseInt_exact [OF ne digits] assms(2) mathInt_decimalValue [OF all]
  show ?thesis by simp
qed

lemma split_js_nonempty: "split_js sep s \<noteq> []"
  by (induction s) (auto split: list.splits)

lemma split_js_plain: "sep \<notin> set segment \<Longrightarrow> split_js sep segment = [segment]"
  by (induction segment) auto

lemma split_js_append:
  "sep \<notin> set segment \<Longrightarrow> split_js sep (segment @ sep # rest) = segment # split_js sep rest"
  by (induction segment) auto

lemma str_dot: "str ''.'' = [dot]"
  by (simp add: str_def dot_def)

lemma split_js_joinDots:
  "segments \<noteq> [] \<Longrightarrow> \<forall>segment \<in> set segments. dot \<notin> set segment \<Longrightarrow>
   split_js dot (joinDots segments) = segments"
proof (induction segments rule: joinDots.induct)
  case 1
  then show ?case by simp
next
  case (2 segment)
  then show ?case by (simp add: split_js_plain)
next
  case (3 segment second rest)
  then show ?case by (simp add: str_dot split_js_append)
qed

lemma dottedNumeric_split:
  assumes "dottedNumeric segments"
  shows "split_js dot (joinDots segments) = segments"
proof -
  have "\<forall>segment \<in> set segments. dot \<notin> set segment"
    using assms decimal_digit by (auto simp: dottedNumeric_def decimalSegment_def list_all_iff)
  with assms show ?thesis
    by (simp add: split_js_joinDots dottedNumeric_def)
qed

lemma compareSegments_exact:
  assumes ps: "\<forall>j<length ps. parseInt (ps ! j) = Finite (decimalValue (ps ! j))"
    and cs: "\<forall>j<length cs. parseInt (cs ! j) = Finite (decimalValue (cs ! j))"
  shows "fst (compareSegments 0 ps cs) \<longleftrightarrow>
     (\<exists>i. i < length ps \<and> i < length cs \<and>
          (\<forall>j<i. decimalValue (ps ! j) = decimalValue (cs ! j)) \<and>
          decimalValue (ps ! i) \<noteq> decimalValue (cs ! i) \<and>
          decimalValue (cs ! i) < decimalValue (ps ! i))"
    (is "?lhs \<longleftrightarrow> ?rhs")
proof -
  have gt: "js_gt (parseInt (ps ! j)) (parseInt (cs ! j)) \<longleftrightarrow>
            decimalValue (cs ! j) < decimalValue (ps ! j)"
    and lt: "js_lt (parseInt (ps ! j)) (parseInt (cs ! j)) \<longleftrightarrow>
            decimalValue (ps ! j) < decimalValue (cs ! j)"
    if "j < length ps" "j < length cs" for j
    using that ps cs by (simp_all add: js_gt_def)
  have "?lhs \<longleftrightarrow> (\<exists>k. decidesNewer 0 ps cs k)"
    by (simp add: compareSegments_newer_iff)
  also have "\<dots> \<longleftrightarrow> ?rhs"
  proof
    assume "\<exists>k. decidesNewer 0 ps cs k"
    then obtain k where k: "decidesNewer 0 ps cs k" ..
    then have bounds: "k < length ps" "k < length cs"
      and g: "js_gt (parseInt (ps ! k)) (parseInt (cs ! k))"
      and before: "\<forall>j<k. \<not> js_gt (parseInt (ps ! j)) (parseInt (cs ! j)) \<and>
                         \<not> js_lt (parseInt (ps ! j)) (parseInt (cs ! j))"
      by (simp_all add: decidesNewer_def)
    have "\<forall>j<k. decimalValue (ps ! j) = decimalValue (cs ! j)"
    proof (intro allI impI)
      fix j assume "j < k"
      with bounds have "j < length ps" "j < length cs" by simp_all
      from gt [OF this] lt [OF this] before \<open>j < k\<close>
      show "decimalValue (ps ! j) = decimalValue (cs ! j)" by auto
    qed
    with bounds g gt [OF bounds] show ?rhs by auto
  next
    assume ?rhs
    then obtain i where i: "i < length ps" "i < length cs"
      and same: "\<forall>j<i. decimalValue (ps ! j) = decimalValue (cs ! j)"
      and g: "decimalValue (cs ! i) < decimalValue (ps ! i)"
      by auto
    have "decidesNewer 0 ps cs i"
      unfolding decidesNewer_def
    proof (intro conjI allI impI)
      show "js_gt (parseInt (ps ! i)) (parseInt (cs ! i))"
        using g gt [OF i] by simp
    next
      fix j assume j: "0 \<le> j \<and> j < i"
      with i have b: "j < length ps" "j < length cs" by simp_all
      from gt [OF b] lt [OF b] same j
      show "\<not> js_gt (parseInt (ps ! j)) (parseInt (cs ! j))"
        and "\<not> js_lt (parseInt (ps ! j)) (parseInt (cs ! j))"
        by simp_all
    qed (use i in simp_all)
    then show "\<exists>k. decidesNewer 0 ps cs k" ..
  qed
  finally show ?thesis .
qed

lemma dottedNumeric_exact:
  assumes "dottedNumeric segments" and "belowTwo53 segments"
  shows "\<forall>j<length segments. parseInt (segments ! j) = Finite (decimalValue (segments ! j))"
  using assms
  by (simp add: dottedNumeric_def belowTwo53_def list_all_length decimalSegment_parseInt)

lemma compareSegments_shift:
  "compareSegments (Suc i) (p # ps) (c # cs) = compareSegments i ps cs"
proof (induction i ps cs rule: compareSegments.induct)
  case (1 i ps cs)
  show ?case
  proof (cases "i < length ps \<and> i < length cs")
    case False
    then show ?thesis
      by (auto simp: compareSegments_stop)
  next
    case True
    then show ?thesis
      using "1.IH" by (simp add: compareSegments_step)
  qed
qed

lemma compareSegments_Cons:
  "compareSegments 0 (p # ps) (c # cs) =
     (if js_gt (parseInt p) (parseInt c) then (True, False)
      else if js_lt (parseInt p) (parseInt c) then (False, True)
      else compareSegments 0 ps cs)"
  by (simp add: compareSegments_step compareSegments_shift)

lemma compareSegments_without:
  "i < length ps \<Longrightarrow> i < length cs \<Longrightarrow>
   parseInt (ps ! i) = NaN \<or> parseInt (cs ! i) = NaN \<Longrightarrow>
   compareSegments 0 ps cs = compareSegments 0 (without i ps) (without i cs)"
proof (induction i arbitrary: ps cs)
  case 0
  then obtain p ps' c cs' where "ps = p # ps'" "cs = c # cs'"
    by (cases ps; cases cs) auto
  with 0 show ?case
    using js_lt_NaN [of "parseInt p" "parseInt c"]
    by (simp add: compareSegments_Cons without_def)
next
  case (Suc i)
  then obtain p ps' c cs' where "ps = p # ps'" "cs = c # cs'"
    by (cases ps; cases cs) auto
  with Suc.prems Suc.IH [of ps' cs'] show ?case
    by (simp add: compareSegments_Cons without_def)
qed

text \<open>
  Claim C8.  At a position inside both lists where the segment of either side parses to
  not-a-number, the comparison is neither "greater" nor "less", the loop passes on to the
  next position, and the answer of \<open>isNewVersion\<close> is the one it gives with that position
  taken out of both lists: the position never decides.  \<open>isNewVersion\<close> is a total
  function of two strings: no step of it can raise.
\<close>

theorem isNewVersion_NaN_never_decides:
  assumes "i < length (split_js dot A)" and "i < length (split_js dot B)"
    and "parseInt (split_js dot A ! i) = NaN \<or> parseInt (split_js dot B ! i) = NaN"
  shows "\<not> js_gt (parseInt (split_js dot A ! i)) (parseInt (split_js dot B ! i)) \<and>
         \<not> js_lt (parseInt (split_js dot A ! i)) (parseInt (split_js dot B ! i)) \<and>
         compareSegments i (split_js dot A) (split_js dot B) =
           compareSegments (Suc i) (split_js dot A) (split_js dot B) \<and>
         snd (isNewVersion A B) =
           fst (compareSegments 0 (without i (split_js dot A)) (without i (split_js dot B)))"
proof -
  have neither:
    "\<not> js_lt (parseInt (split_js dot A ! i)) (parseInt (split_js dot B ! i)) \<and>
     \<not> js_gt (parseInt (split_js dot A ! i)) (parseInt (split_js dot B ! i))"
    using assms(3) by (rule js_lt_NaN)
  moreover have "compareSegments i (split_js dot A) (split_js dot B) =
      compareSegments (Suc i) (split_js dot A) (split_js dot B)"
    using assms(1,2) neither by (simp add: compareSegments_step)
  moreover have "snd (isNewVersion A B) =
      fst (compareSegments 0 (without i (split_js dot A)) (without i (split_js dot B)))"
    using compareSegments_without [OF assms] by (simp add: isNewVersion_snd)
  ultimately show ?thesis by blast
qed

theorem isNewVersion_NaN_never_decides_witness:
  "parseInt (split_js dot (str ''1.x.5'') ! 1) = NaN \<and>
   \<not> js_gt (parseInt (split_js dot (str ''1.x.5'') ! 1)) (parseInt (split_js dot (str ''1.9.3'') ! 1)) \<and>
   \<not> js_lt (parseInt (split_js dot (str ''1.x.5'') ! 1)) (parseInt (split_js dot (str ''1.9.3'') ! 1)) \<and>
   snd (isNewVersion (str ''1.x.5'') (str ''1.9.3'')) =
     fst (compareSegments 0 (without 1 (split_js dot (str ''1.x.5'')))
                            (without 1 (split_js dot (str ''1.9.3'')))) \<and>
   snd (isNewVersion (str ''1.x.5'') (str ''1.9.3''))"
proof -
  have a: "1 < length (split_js dot (str ''1.x.5''))" by code_simp
  have b: "1 < length (split_js dot (str ''1.9.3''))" by code_simp
  have n: "parseInt (split_js dot (str ''1.x.5'') ! 1) = NaN" by code_simp
  have r: "snd (isNewVersion (str ''1.x.5'') (str ''1.9.3''))" by code_simp
  from n have c: "parseInt (split_js dot (str ''1.x.5'') ! 1) = NaN \<or>
      parseInt (split_js dot (str ''1.9.3'') ! 1) = NaN" ..
  show ?thesis
    using isNewVersion_NaN_never_decides [OF a b c] n r by simp
qed

text \<open>
  Claim C10.  \<open>isNewVersion\<close> is irreflexive, and it never answers "newer" in both
  directions.
\<close>

theorem isNewVersion_irreflexive_asymmetric:
  "snd (isNewVersion V V) = False \<and> \<not> (snd (isNewVersion A B) \<and> snd (isNewVersion B A))"
proof -
  have asym: "\<not> (snd (isNewVersion X Y) \<and> snd (isNewVersion Y X))" for X Y
  proof
    assume both: "snd (isNewVersion X Y) \<and> snd (isNewVersion Y X)"
    let ?c = "compareSegments 0 (split_js dot X) (split_js dot Y)"
    from both have "fst ?c" by (simp add: isNewVersion_snd)
    moreover from both have "snd ?c"
      by (simp add: isNewVersion_snd compareSegments_swap [of 0 "split_js dot Y"])
    ultimately show False
      using compareSegments_exclusive [of 0 "split_js dot X" "split_js dot Y"] by simp
  qed
  from asym [of V V] asym [of A B] show ?thesis by simp
qed

theorem isNewVersion_irreflexive_asymmetric_witness:
  "snd (isNewVersion (str ''1.3'') (str ''1.3'')) = False \<and>
   snd (isNewVersion (str ''1.3'') (str ''1.2.9'')) \<and>
   \<not> snd (isNewVersion (str ''1.2.9'') (str ''1.3''))"
proof -
  have r: "snd (isNewVersion (str ''1.3'') (str ''1.2.9''))" by code_simp
  show ?thesis
    using isNewVersion_irreflexive_asymmetric [of "str ''1.3''" "str ''1.3''" "str ''1.2.9''"] r
    by simp
qed

text \<open>
  Claim C4, amended.  For dotted-numeric strings whose segments are all below \<open>2^53\<close>,
  \<open>isNewVersion A B\<close> answers true exactly when, at the first position inside both
  lists of segments where the numbers of the segments differ, the number of \<open>A\<close> is the
  greater; so it answers false when all compared segments are equal, also when one string
  has more segments.  The four examples of the specification are evaluated.
\<close>

theorem isNewVersion_first_differing_segment:
  "(dottedNumeric xs \<and> dottedNumeric ys \<and> belowTwo53 xs \<and> belowTwo53 ys \<longrightarrow>
      (snd (isNewVersion (joinDots xs) (joinDots ys)) \<longleftrightarrow>
         (\<exists>i. i < length xs \<and> i < length ys \<and>
              (\<forall>j<i. decimalValue (xs ! j) = decimalValue (ys ! j)) \<and>
              decimalValue (xs ! i) \<noteq> decimalValue (ys ! i) \<and>
              decimalValue (ys ! i) < decimalValue (xs ! i)))) \<and>
   snd (isNewVersion (str ''1.2.0'') (str ''1.2'')) = False \<and>
   snd (isNewVersion (str ''1.3'') (str ''1.2.9'')) = True \<and>
   snd (isNewVersion (str ''1.2'') (str ''1.3'')) = False \<and>
   snd (isNewVersion (str ''2.0.0'') (str ''1.9.9'')) = True"
proof (intro conjI impI)
  assume h: "dottedNumeric xs \<and> dottedNumeric ys \<and> belowTwo53 xs \<and> belowTwo53 ys"
  then have "snd (isNewVersion (joinDots xs) (joinDots ys)) = fst (compareSegments 0 xs ys)"
    by (simp add: isNewVersion_snd dottedNumeric_split)
  with h show "snd (isNewVersion (joinDots xs) (joinDots ys)) \<longleftrightarrow>
         (\<exists>i. i < length xs \<and> i < length ys \<and>
              (\<forall>j<i. decimalValue (xs ! j) = decimalValue (ys ! j)) \<and>
              decimalValue (xs ! i) \<noteq> decimalValue (ys ! i) \<and>
              decimalValue (ys ! i) < decimalValue (xs ! i))"
    using compareSegments_exact [OF dottedNumeric_exact dottedNumeric_exact, of xs ys] by simp
next
  show "snd (isNewVersion (str ''1.2.0'') (str ''1.2'')) = False" by code_simp
  show "snd (isNewVersion (str ''1.3'') (str ''1.2.9'')) = True" by code_simp
  show "snd (isNewVersion (str ''1.2'') (str ''1.3'')) = False" by code_simp
  show "snd (isNewVersion (str ''2.0.0'') (str ''1.9.9'')) = True" by code_simp
qed

theorem isNewVersion_first_differing_segment_witness:
  "dottedNumeric [str ''2'', str ''0'', str ''0''] \<and> dottedNumeric [str ''1'', str ''9'', str ''9''] \<and>
   belowTwo53 [str ''2'', str ''0'', str ''0''] \<and> belowTwo53 [str ''1'', str ''9'', str ''9''] \<and>
   joinDots [str ''2'', str ''0'', str ''0''] = str ''2.0.0'' \<and>
   joinDots [str ''1'', str ''9'', str ''9''] = str ''1.9.9'' \<and>
   decimalValue (str ''1'') < decimalValue (str ''2'') \<and>
   snd (isNewVersion (joinDots [str ''2'', str ''0'', str ''0'']) (joinDots [str ''1'', str ''9'', str ''9'']))"
proof -
  have d: "dottedNumeric [str ''2'', str ''0'', str ''0''] \<and> dottedNumeric [str ''1'', str ''9'', str ''9''] \<and>
     belowTwo53 [str ''2'', str ''0'', str ''0''] \<and> belowTwo53 [str ''1'', str ''9'', str ''9'']"
    by code_simp
  have j: "joinDots [str ''2'', str ''0'', str ''0''] = str ''2.0.0'' \<and>
     joinDots [str ''1'', str ''9'', str ''9''] = str ''1.9.9''"
    by code_simp
  have v: "decimalValue (str ''1'') < decimalValue (str ''2'')" by code_simp
  have e: "\<exists>i. i < length [str ''2'', str ''0'', str ''0''] \<and> i < length [str ''1'', str ''9'', str ''9''] \<and>
     (\<forall>j<i. decimalValue ([str ''2'', str ''0'', str ''0''] ! j) = decimalValue ([str ''1'', str ''9'', str ''9''] ! j)) \<and>
     decimalValue ([str ''2'', str ''0'', str ''0''] ! i) \<noteq> decimalValue ([str ''1'', str ''9'', str ''9''] ! i) \<and>
     decimalValue ([str ''1'', str ''9'', str ''9''] ! i) < decimalValue ([str ''2'', str ''0'', str ''0''] ! i)"
    using v by (intro exI [of _ 0]) simp
  show ?thesis
    using isNewVersion_first_differing_segment
      [of "[str ''2'', str ''0'', str ''0'']" "[str ''1'', str ''9'', str ''9'']"] d j v e
    by blast
qed

text \<open>
  Claim C4 as stated fails: a segment is compared as the Number that \<^verbatim>\<open>parseInt\<close> gives,
  and the integers 9007199254740993 and 9007199254740992 are the same Number, so the first
  is not found newer than the second.
\<close>

theorem isNewVersion_rounds_large_segments:
  "dottedNumeric [str ''9007199254740993''] \<and> dottedNumeric [str ''9007199254740992''] \<and>
   joinDots [str ''9007199254740993''] = str ''9007199254740993'' \<and>
   joinDots [str ''9007199254740992''] = str ''9007199254740992'' \<and>
   decimalValue (str ''9007199254740993'') = 9007199254740993 \<and>
   decimalValue (str ''9007199254740992'') = 9007199254740992 \<and>
   snd (isNewVersion (str ''9007199254740993'') (str ''9007199254740992'')) = False"
  by code_simp

section \<open>Properties of the page\<close>

lemma effects_emit [simp]: "effects (emit es s) = effects s @ es"
  by (simp add: emit_def)

lemma listeners_emit [simp]: "listeners (emit es s) = listeners s"
  by (simp add: emit_def)

lemma count_list_append: "count_list (xs @ ys) a = count_list xs a + count_list ys a"
  by (induction xs) auto

lemma listeners_combine: "listeners (combine s) = listeners s"
  by (simp add: combine_def Let_def split: option.splits)

lemma reloads_combine: "reloads (combine s) = reloads s"
  by (simp add: combine_def Let_def reloads_def count_list_append split: option.splits)

lemma fst_dispatch: "fst (dispatch flags) = map (\<lambda>_. True) flags"
  by (induction flags) (auto simp: listener_def split: prod.splits)

lemma snd_dispatch:
  "count_list (snd (dispatch flags)) LocationReload = length (filter (\<lambda>fired. \<not> fired) flags)"
  by (induction flags) (auto simp: listener_def count_list_append split: prod.splits)

lemma listeners_controllerchange:
  "listeners (controllerchange s) = map (\<lambda>_. True) (listeners s)"
  using fst_dispatch [of "listeners s"]
  by (auto simp: controllerchange_def split: prod.splits)

lemma reloads_controllerchange:
  "reloads (controllerchange s) = reloads s + length (filter (\<lambda>fired. \<not> fired) (listeners s))"
  using snd_dispatch [of "listeners s"]
  by (auto simp: controllerchange_def reloads_def count_list_append split: prod.splits)

lemma run_Cons: "run cfg (ev # evs) s = run cfg evs (step cfg s ev)"
  by (simp add: run_def)

lemma run_Nil: "run cfg [] s = s"
  by (simp add: run_def)

lemma step_ControllerChange: "step cfg s ControllerChange = controllerchange s"
  by (simp add: step_def)

lemma run_fired:
  "list_all (\<lambda>fired. fired) (listeners s) \<Longrightarrow>
   reloads (run cfg (replicate n ControllerChange) s) = reloads s"
proof (induction n arbitrary: s)
  case 0
  then show ?case by (simp add: run_Nil)
next
  case (Suc n)
  have all: "list_all (\<lambda>fired. fired) (listeners (controllerchange s))"
    by (simp add: listeners_controllerchange list_all_iff)
  have none: "filter (\<lambda>fired. \<not> fired) (listeners s) = []"
    using Suc.prems by (simp add: list_all_iff filter_empty_conv)
  show ?case
    using Suc.IH [OF all] none
    by (simp add: run_Cons step_ControllerChange reloads_controllerchange)
qed

lemma onstatechange_update:
  "listeners (onstatechange cfg Installed True s) = listeners s @ [False] \<and>
   reloads (onstatechange cfg Installed True s) = reloads s"
proof -
  have "reloads (serviceWorkerUpdated_next True (emit [Log Info m] s)) = reloads s" for m
    by (simp add: serviceWorkerUpdated_next_def reloads_combine)
       (simp add: reloads_def count_list_append)
  moreover have "listeners (serviceWorkerUpdated_next True (emit [Log Info m] s)) = listeners s" for m
    by (simp add: serviceWorkerUpdated_next_def listeners_combine)
  ultimately show ?thesis
    by (simp add: onstatechange_def Let_def reloads_def)
qed

text \<open>
  Claim C6.  A newly installed worker is observed while the page has a controller, and
  every listener armed before has fired (none, in a first cycle).  Then however many
  \<^verbatim>\<open>controllerchange\<close> events follow, if at least one does, the page reloads exactly once:
  the flag of the listener suppresses the second and the later ones.
\<close>

theorem reload_exactly_once:
  assumes "list_all (\<lambda>fired. fired) (listeners s)" and "0 < N"
  shows "reloads (run cfg (replicate N ControllerChange) (onstatechange cfg Installed True s))
         = reloads s + 1"
proof -
  from assms(2) obtain n where N: "N = Suc n"
    by (cases N) auto
  let ?armed = "onstatechange cfg Installed True s"
  have unfired: "filter (\<lambda>fired. \<not> fired) (listeners ?armed) = [False]"
    using assms(1) onstatechange_update [of cfg s]
    by (simp add: list_all_iff filter_empty_conv)
  have first: "reloads (controllerchange ?armed) = reloads s + 1"
    using unfired onstatechange_update [of cfg s] by (simp add: reloads_controllerchange)
  have all: "list_all (\<lambda>fired. fired) (listeners (controllerchange ?armed))"
    by (simp add: listeners_controllerchange list_all_iff)
  show ?thesis
    using run_fired [OF all, of cfg n] first
    by (simp add: N run_Cons step_ControllerChange)
qed

theorem reload_exactly_once_witness:
  "list_all (\<lambda>fired. fired) (listeners page0) \<and> (0::nat) < 3 \<and>
   reloads (run quiet (replicate 3 ControllerChange) (onstatechange quiet Installed True page0)) = 1"
proof -
  have a: "list_all (\<lambda>fired. fired) (listeners page0)" by (simp add: page0_def)
  have b: "(0::nat) < 3" by simp
  have c: "reloads page0 = 0" by (simp add: page0_def reloads_def)
  show ?thesis
    using reload_exactly_once [OF a b, of quiet] a c by simp
qed

text \<open>
  Claim C3, amended.  Once registration has completed: when the update check rejects, the
  promise still resolves, and the error is logged and reported exactly when the debug flag
  is set; when the update check succeeds, the promise resolves to true if and only if a
  worker is waiting.  Before registration completes the function resolves to false and
  does nothing.
\<close>

theorem updateServiceWorker_resolves:
  "(update reg = Inl err \<longrightarrow>
      (\<exists>b. snd (updateServiceWorker cfg CheckRegistration reg) = Inr b) \<and>
      (Log Error ''Unable to update service worker.''
         \<in> set (fst (updateServiceWorker cfg CheckRegistration reg)) \<longleftrightarrow> debugSW cfg) \<and>
      (ReportException \<in> set (fst (updateServiceWorker cfg CheckRegistration reg))
         \<longleftrightarrow> debugSW cfg)) \<and>
   (update reg = Inr () \<longrightarrow>
      snd (updateServiceWorker cfg CheckRegistration reg) = Inr (waiting reg)) \<and>
   updateServiceWorker cfg ResolveFalse reg = ([], Inr False)"
  by (auto simp: updateServiceWorker_def)

theorem updateServiceWorker_resolves_witness:
  "update (seen True\<lparr>update := Inl BrowserError\<rparr>) = Inl BrowserError \<and>
   ReportException \<in> set (fst (updateServiceWorker verbose CheckRegistration
                                  (seen True\<lparr>update := Inl BrowserError\<rparr>))) \<and>
   update (seen True) = Inr () \<and>
   snd (updateServiceWorker verbose CheckRegistration (seen True)) = Inr True"
  using updateServiceWorker_resolves [of "seen True\<lparr>update := Inl BrowserError\<rparr>" BrowserError verbose]
    updateServiceWorker_resolves [of "seen True" BrowserError verbose]
  by (simp add: seen_def verbose_def)

text \<open>
  Claim C3 as stated fails: without the debug flag a rejected update check is neither
  logged nor reported.
\<close>

theorem updateServiceWorker_failure_unreported:
  "update (seen False\<lparr>update := Inl BrowserError\<rparr>) = Inl BrowserError \<and>
   Log Error ''Unable to update service worker.''
     \<notin> set (fst (updateServiceWorker quiet CheckRegistration (seen False\<lparr>update := Inl BrowserError\<rparr>))) \<and>
   ReportException
     \<notin> set (fst (updateServiceWorker quiet CheckRegistration (seen False\<lparr>update := Inl BrowserError\<rparr>)))"
  by (simp add: updateServiceWorker_def seen_def quiet_def)

lemma reloadDIM_try_unreported: "ReportException \<notin> set (fst (reloadDIM_try c))"
  by (simp add: reloadDIM_try_def split: sum.splits option.splits)

text \<open>
  Claim C5, amended.  \<open>reloadDIM\<close> never throws.  With no registration it logs and reloads
  at once; with neither a waiting nor an installing worker it logs and reloads at once; an
  exception that leaves the \<^verbatim>\<open>try\<close> block is caught and logged, and the reload follows.
  Nothing is reported to the exception sink.
\<close>

theorem reloadDIM_always_reloads:
  "snd (reloadDIM c) = Inr () \<and>
   (getRegistration c = Inr None \<longrightarrow>
      fst (reloadDIM c) = [Log Error ''No registration!'', LocationReload]) \<and>
   (getRegistration c = Inr (Some reg) \<and> \<not> waiting reg \<and> \<not> installing reg \<longrightarrow>
      fst (reloadDIM c) = [Log Error ''registration.waiting is null!'', LocationReload]) \<and>
   (snd (reloadDIM_try c) = Inl e \<longrightarrow>
      fst (reloadDIM c) =
        fst (reloadDIM_try c) @ [Log Error ''Error checking registration:'', LocationReload]) \<and>
   ReportException \<notin> set (fst (reloadDIM c))"
proof (intro conjI impI)
  show "snd (reloadDIM c) = Inr ()"
    by (simp add: reloadDIM_def split: prod.splits sum.splits)
  show "fst (reloadDIM c) = [Log Error ''No registration!'', LocationReload]"
    if "getRegistration c = Inr None"
    using that by (simp add: reloadDIM_def reloadDIM_try_def)
  show "fst (reloadDIM c) = [Log Error ''registration.waiting is null!'', LocationReload]"
    if "getRegistration c = Inr (Some reg) \<and> \<not> waiting reg \<and> \<not> installing reg"
    using that by (simp add: reloadDIM_def reloadDIM_try_def)
  show "fst (reloadDIM c) =
        fst (reloadDIM_try c) @ [Log Error ''Error checking registration:'', LocationReload]"
    if "snd (reloadDIM_try c) = Inl e"
    using that by (auto simp: reloadDIM_def split: prod.splits)
  show "ReportException \<notin> set (fst (reloadDIM c))"
    using reloadDIM_try_unreported [of c]
    by (auto simp: reloadDIM_def split: prod.splits sum.splits)
qed

theorem reloadDIM_always_reloads_witness:
  "getRegistration unregistered = Inr None \<and>
   reloadDIM unregistered = ([Log Error ''No registration!'', LocationReload], Inr ()) \<and>
   snd (reloadDIM_try rejecting) = Inl BrowserError \<and>
   reloadDIM rejecting = ([Log Error ''Error checking registration:'', LocationReload], Inr ())"
proof -
  have a: "getRegistration unregistered = Inr None" by (simp add: unregistered_def)
  have b: "snd (reloadDIM_try rejecting) = Inl BrowserError \<and> fst (reloadDIM_try rejecting) = []"
    by (simp add: rejecting_def reloadDIM_try_def)
  show ?thesis
    using reloadDIM_always_reloads [of unregistered "seen False" BrowserError]
      reloadDIM_always_reloads [of rejecting "seen False" BrowserError] a b
    by (simp add: prod_eq_iff)
qed

text \<open>
  Claim C5 as stated fails: an exception raised in the sequence is not reported.
\<close>

theorem reloadDIM_exception_unreported:
  "snd (reloadDIM_try rejecting) = Inl BrowserError \<and>
   ReportException \<notin> set (fst (reloadDIM rejecting))"
  by (simp add: rejecting_def reloadDIM_def reloadDIM_try_def)

text \<open>
  Claim C9, amended.  When an installing worker reaches \<^verbatim>\<open>installed\<close> and the page has no
  controller, the latch \<^verbatim>\<open>serviceWorkerUpdated$\<close> and \<^verbatim>\<open>dimNeedsUpdate\<close> keep their values,
  no listener is armed, and the only effect is one informational log, made when the debug
  flag is set and not otherwise.  So in a first install from a fresh page the latch stays
  false, no listener is armed, and nothing but informational logs under the debug flag
  is done: no reload.
\<close>

theorem first_install_frame:
  "serviceWorkerUpdated (onstatechange cfg Installed False s) = serviceWorkerUpdated s \<and>
   dimNeedsUpdate (onstatechange cfg Installed False s) = dimNeedsUpdate s \<and>
   listeners (onstatechange cfg Installed False s) = listeners s \<and>
   effects (onstatechange cfg Installed False s) =
     effects s @ (if debugSW cfg then [Log Info ''Content is cached for offline use.''] else []) \<and>
   serviceWorkerUpdated (run cfg firstInstall page0) = False \<and>
   listeners (run cfg firstInstall page0) = [] \<and>
   effects (run cfg firstInstall page0) =
     (if debugSW cfg
      then [Log Info ''A new Service Worker version has been found...'',
            Log Info ''Content is cached for offline use.'']
      else [])"
  by (simp add: onstatechange_def run_def firstInstall_def step_def registerServiceWorker_def
      onupdatefound_def page0_def emit_def)

theorem first_install_frame_witness:
  "debugSW verbose \<and>
   effects (run verbose firstInstall page0) =
     [Log Info ''A new Service Worker version has been found...'',
      Log Info ''Content is cached for offline use.''] \<and>
   LocationReload \<notin> set (effects (run verbose firstInstall page0)) \<and>
   listeners (run verbose firstInstall page0) = [] \<and>
   \<not> serviceWorkerUpdated (run verbose firstInstall page0)"
  using first_install_frame [of verbose page0]
  by (simp add: verbose_def)

text \<open>
  Claim C9 as stated fails: without the debug flag a first install emits no log at all.
\<close>

theorem first_install_silent:
  "\<not> debugSW quiet \<and> effects (run quiet firstInstall page0) = []"
  by (simp add: quiet_def onstatechange_def run_def firstInstall_def step_def
      registerServiceWorker_def onupdatefound_def page0_def emit_def)

lemma getServerVersion_swallowed:
  "swallowed outcome \<Longrightarrow> \<exists>e. getServerVersion outcome = ([], Inl e)"
  by (auto simp: swallowed_def getServerVersion_def)

lemma emit_Nil: "emit [] s = s"
  by (simp add: emit_def)

lemma pollTick_swallowed: "swallowed (fetched t) \<Longrightarrow> pollTick cfg t s = s"
  using getServerVersion_swallowed [of "fetched t"]
  by (auto simp: pollTick_def from_promise_def catchError_empty_def emit_Nil)

lemma stopped_emit [simp]: "stopped (emit es s) = stopped s"
  by (simp add: emit_def)

lemma stopped_combine: "stopped (combine s) = stopped s"
  by (simp add: combine_def Let_def split: option.splits)

lemma updateServiceWorker_resolved: "\<exists>b. snd (updateServiceWorker cfg u reg) = Inr b"
  by (auto simp: updateServiceWorker_def split: updater.splits sum.splits)

lemma pollTick_not_stopped: "stopped (pollTick cfg t s) = stopped s"
proof (cases "stopped s")
  case True
  then show ?thesis by (simp add: pollTick_def)
next
  case False
  obtain fetchLog got where g: "getServerVersion (fetched t) = (fetchLog, got)"
    by (cases "getServerVersion (fetched t)")
  show ?thesis
  proof (cases got)
    case (Inl e)
    with False g show ?thesis
      by (simp add: pollTick_def from_promise_def catchError_empty_def)
  next
    case (Inr version)
    obtain compareLog needsUpdate
      where c: "isNewVersion version (DIM_VERSION cfg) = (compareLog, needsUpdate)"
      by (cases "isNewVersion version (DIM_VERSION cfg)")
    obtain es p where u: "updateServiceWorker cfg (updateServiceWorker_var s) (registrationSeen t) = (es, p)"
      by (cases "updateServiceWorker cfg (updateServiceWorker_var s) (registrationSeen t)")
    from updateServiceWorker_resolved [of cfg "updateServiceWorker_var s" "registrationSeen t"] u
    obtain b where p: "p = Inr b" by auto
    from False g Inr c u p show ?thesis
      by (simp add: pollTick_def from_promise_def catchError_empty_def Let_def
          serverVersionChanged_next_def stopped_combine emit_def)
  qed
qed

text \<open>
  Claim C7, amended.  A tick whose fetch fails, whose response is not \<^verbatim>\<open>ok\<close>, whose JSON
  cannot be read or has no version leaves the page exactly as it was: nothing is logged,
  nothing reaches the observers, and the run goes on with the next events as if the tick
  had not been.  No tick at all ends the stream.
\<close>

theorem poll_failure_swallowed:
  "(swallowed (fetched t) \<longrightarrow>
      pollTick cfg t s = s \<and> run cfg (PollTick t # evs) s = run cfg evs s) \<and>
   stopped (pollTick cfg t s) = stopped s"
  using pollTick_swallowed [of t cfg s] pollTick_not_stopped [of cfg t s]
  by (simp add: run_def step_def)

theorem poll_failure_swallowed_witness:
  "swallowed (fetched offline) \<and>
   pollTick quiet offline page0 = page0 \<and>
   \<not> stopped (pollTick quiet offline page0) \<and>
   notifications (run quiet [PollTick offline, serves ''1.0.1'' False] page0) = [Notify False]"
proof -
  have a: "swallowed (fetched offline)" by (simp add: offline_def swallowed_def)
  have b: "notifications (run quiet [serves ''1.0.1'' False] page0) = [Notify False]"
    by code_simp
  have c: "\<not> stopped page0" by (simp add: page0_def)
  show ?thesis
    using poll_failure_swallowed [of offline quiet page0 "[serves ''1.0.1'' False]"] a b c
    by simp
qed

text \<open>
  Claim C7 as stated fails: a failed fetch is not logged.
\<close>

theorem poll_failure_not_logged:
  "swallowed (fetched offline) \<and> effects (pollTick quiet offline page0) = []"
  by code_simp

subsection \<open>What the two streams do keep\<close>

text \<open>
  A tick whose comparison gives the value of the tick before passes nothing on and
  attempts no update: it only logs.
\<close>

lemma pollTick_repeated:
  assumes "\<not> stopped s" and "version \<noteq> []"
    and "lastCompared s = Some (snd (isNewVersion version (DIM_VERSION cfg)))"
  shows "pollTick cfg \<lparr>fetched = JsonData (Some version), registrationSeen = reg\<rparr> s =
         emit (Log Info ''Got server version'' # fst (isNewVersion version (DIM_VERSION cfg))) s"
proof -
  obtain compareLog needsUpdate
    where c: "isNewVersion version (DIM_VERSION cfg) = (compareLog, needsUpdate)"
    by (cases "isNewVersion version (DIM_VERSION cfg)")
  with assms show ?thesis
    by (simp add: pollTick_def getServerVersion_def from_promise_def catchError_empty_def emit_def)
qed

text \<open>
  Once \<^verbatim>\<open>serviceWorkerUpdated$\<close> is true it stays true, and from then on no event makes
  \<^verbatim>\<open>dimNeedsUpdate$\<close> emit false or sets \<open>dimNeedsUpdate\<close> back.
\<close>

lemma latched_refl: "serviceWorkerUpdated s \<Longrightarrow> latched s s"
  by (simp add: latched_def)

lemma latched_trans: "latched s s' \<Longrightarrow> latched s' s'' \<Longrightarrow> latched s s''"
  by (auto simp: latched_def)

lemma latched_emit:
  "serviceWorkerUpdated s \<Longrightarrow> Notify False \<notin> set es \<Longrightarrow> latched s (emit es s)"
  by (simp add: latched_def emit_def)

lemma latched_combine: "serviceWorkerUpdated s \<Longrightarrow> latched s (combine s)"
  by (auto simp: latched_def combine_def Let_def emit_def split: option.splits)

lemma getServerVersion_log: "Notify b \<notin> set (fst (getServerVersion outcome))"
  by (simp add: getServerVersion_def split: fetch_outcome.splits option.splits)

lemma isNewVersion_log: "Notify b \<notin> set (fst (isNewVersion v c))"
  by (simp add: isNewVersion_def Let_def split: prod.splits)

lemma updateServiceWorker_log: "Notify b \<notin> set (fst (updateServiceWorker cfg u reg))"
  by (simp add: updateServiceWorker_def Let_def split: updater.splits sum.splits prod.splits)

lemma latched_pollTick:
  assumes "serviceWorkerUpdated s"
  shows "latched s (pollTick cfg t s)"
proof (cases "stopped s")
  case True
  with assms show ?thesis by (simp add: pollTick_def latched_refl)
next
  case False
  obtain fetchLog got where g: "getServerVersion (fetched t) = (fetchLog, got)"
    by (cases "getServerVersion (fetched t)")
  have fl: "Notify False \<notin> set fetchLog"
    using getServerVersion_log [of False "fetched t"] g by simp
  let ?s1 = "emit fetchLog s"
  have s1: "latched s ?s1" "serviceWorkerUpdated ?s1"
    using assms fl by (simp_all add: latched_emit) (simp add: emit_def)
  show ?thesis
  proof (cases got)
    case (Inl e)
    with False g s1 show ?thesis
      by (simp add: pollTick_def from_promise_def catchError_empty_def)
  next
    case (Inr version)
    obtain compareLog needsUpdate
      where c: "isNewVersion version (DIM_VERSION cfg) = (compareLog, needsUpdate)"
      by (cases "isNewVersion version (DIM_VERSION cfg)")
    have cl: "Notify False \<notin> set compareLog"
      using isNewVersion_log [of False version "DIM_VERSION cfg"] c by simp
    let ?s2 = "emit compareLog ?s1"
    have s2: "latched s ?s2" "serviceWorkerUpdated ?s2"
      using s1 cl latched_trans [OF s1(1) latched_emit [OF s1(2) cl]] by (simp_all add: emit_def)
    show ?thesis
    proof (cases "lastCompared ?s2 = Some needsUpdate")
      case True
      with False g Inr c s2 show ?thesis
        by (simp add: pollTick_def from_promise_def catchError_empty_def)
    next
      case changed: False
      let ?s3 = "?s2\<lparr>lastCompared := Some needsUpdate\<rparr>"
      have s3: "latched s ?s3" "serviceWorkerUpdated ?s3"
        using s2 by (simp_all add: latched_def)
      obtain es p where u: "updateServiceWorker cfg (updateServiceWorker_var ?s3) (registrationSeen t) = (es, p)"
        by (cases "updateServiceWorker cfg (updateServiceWorker_var ?s3) (registrationSeen t)")
      from updateServiceWorker_resolved [of cfg "updateServiceWorker_var ?s3" "registrationSeen t"] u
      obtain b where p: "p = Inr b" by auto
      have ul: "Notify False \<notin> set es"
        using updateServiceWorker_log [of False cfg "updateServiceWorker_var ?s3" "registrationSeen t"] u
        by simp
      have next_ok: "latched s (serverVersionChanged_next v (emit l ?s3))"
        if "Notify False \<notin> set l" for v l
      proof -
        have a: "latched ?s3 (emit l ?s3)" "serviceWorkerUpdated (emit l ?s3)"
          using s3(2) that by (simp_all add: latched_emit) (simp add: emit_def)
        let ?s5 = "(emit l ?s3)\<lparr>serverVersionChanged := Some v\<rparr>"
        have b: "latched (emit l ?s3) ?s5" "serviceWorkerUpdated ?s5"
          using a(2) by (simp_all add: latched_def)
        have "latched ?s5 (combine ?s5)"
          using b(2) by (rule latched_combine)
        with s3(1) a(1) b(1) show ?thesis
          unfolding serverVersionChanged_next_def by (blast intro: latched_trans)
      qed
      show ?thesis
      proof (cases needsUpdate)
        case True
        have "pollTick cfg t s = serverVersionChanged_next b (emit es ?s3)"
          using False g Inr c changed u p True
          by (simp add: pollTick_def from_promise_def catchError_empty_def Let_def)
        with next_ok [OF ul] show ?thesis by simp
      next
        case nu: False
        have "pollTick cfg t s = serverVersionChanged_next False (emit [] ?s3)"
          using False g Inr c changed nu
          by (simp add: pollTick_def from_promise_def catchError_empty_def Let_def)
        with next_ok [of "[]" False] show ?thesis by simp
      qed
    qed
  qed
qed


lemma dispatch_log: "Notify b \<notin> set (snd (dispatch flags))"
  by (induction flags) (auto simp: listener_def split: prod.splits)

lemma latched_fields:
  "latched s s' \<Longrightarrow>
   latched s (s'\<lparr>listeners := l\<rparr>) \<and> latched s (s'\<lparr>onstatechange_set := x\<rparr>) \<and>
   latched s (s'\<lparr>onupdatefound_set := y, updateServiceWorker_var := u\<rparr>)"
  by (simp add: latched_def)

lemma latched_step:
  assumes "serviceWorkerUpdated s"
  shows "latched s (step cfg s ev)"
proof (cases ev)
  case (Register supported registered)
  with assms show ?thesis
    using latched_fields [OF latched_refl [OF assms]]
    by (auto simp: step_def registerServiceWorker_def latched_refl latched_emit split: sum.splits)
next
  case UpdateFound
  with assms show ?thesis
    using latched_fields [OF latched_refl [OF assms]]
      latched_fields [OF latched_emit [OF assms, of "[Log Info ''A new Service Worker version has been found...'']"]]
    by (auto simp: step_def onupdatefound_def latched_refl)
next
  case (StateChange state controller)
  let ?s1 = "emit [Log Info ''New content is available; please refresh. (from onupdatefound)''] s"
  have a: "latched s ?s1" "serviceWorkerUpdated ?s1"
    using assms by (simp_all add: latched_emit) (simp add: emit_def)
  let ?s2 = "?s1\<lparr>serviceWorkerUpdated := True\<rparr>"
  have b: "latched ?s1 ?s2" "serviceWorkerUpdated ?s2"
    using a(2) by (simp_all add: latched_def)
  have c: "latched ?s2 (combine ?s2)"
    using b(2) by (rule latched_combine)
  have "latched s (serviceWorkerUpdated_next True ?s1)"
    unfolding serviceWorkerUpdated_next_def
    using a(1) b(1) c by (blast intro: latched_trans)
  from latched_fields [OF this] StateChange assms show ?thesis
    by (auto simp: step_def onstatechange_def Let_def latched_refl latched_emit)
next
  case ControllerChange
  obtain flags es where d: "dispatch (listeners s) = (flags, es)"
    by (cases "dispatch (listeners s)")
  have "Notify False \<notin> set es"
    using dispatch_log [of False "listeners s"] d by simp
  then have "latched s (emit es (s\<lparr>listeners := flags\<rparr>))"
    using assms by (simp add: latched_def emit_def)
  with ControllerChange d show ?thesis
    by (simp add: step_def controllerchange_def)
next
  case (PollTick t)
  with latched_pollTick [OF assms] show ?thesis
    by (simp add: step_def)
qed

lemma latched_run: "serviceWorkerUpdated s \<Longrightarrow> latched s (run cfg evs s)"
proof (induction evs arbitrary: s)
  case Nil
  then show ?case by (simp add: run_Nil latched_refl)
next
  case (Cons ev evs)
  have a: "latched s (step cfg s ev)"
    using Cons.prems by (rule latched_step)
  then have "serviceWorkerUpdated (step cfg s ev)"
    by (simp add: latched_def)
  then have "latched (step cfg s ev) (run cfg evs (step cfg s ev))"
    by (rule Cons.IH)
  with a show ?case
    by (simp add: run_Cons) (blast intro: latched_trans)
qed

lemma worker_latch_holds:
  assumes "serviceWorkerUpdated s" and "dimNeedsUpdate s"
  shows "dimNeedsUpdate (run cfg evs s) \<and>
         Notify False \<notin> set (drop (length (effects s)) (effects (run cfg evs s)))"
  using latched_run [OF assms(1), of cfg evs] assms(2)
  by (auto simp: latched_def)

text \<open>
  Claim C1 does not hold of the code.  For the comparison results false, true, true,
  false, true, \<^verbatim>\<open>registration.update()\<close> is called twice, once at each change to true, and
  the stream goes to true twice: \<^verbatim>\<open>distinctUntilChanged\<close> drops a repeated value only.
\<close>

theorem update_attempted_at_every_rise:
  "map (\<lambda>version. snd (isNewVersion (str version) (DIM_VERSION quiet)))
     [''1.0.0'', ''1.0.1'', ''1.0.1'', ''1.0.0'', ''1.0.1''] = [False, True, True, False, True] \<and>
   count_list (effects (run quiet rollback page0)) RegistrationUpdate = 2 \<and>
   notifications (run quiet rollback page0) = [Notify False, Notify True, Notify False, Notify True]"
  by code_simp

text \<open>
  Claim C2 does not hold of the code.  With a worker already waiting and the latch
  \<^verbatim>\<open>serviceWorkerUpdated$\<close> false, a server that serves 1.0.1 and then 1.0.0 again makes
  \<^verbatim>\<open>dimNeedsUpdate$\<close> emit true and then false.
\<close>

theorem needsUpdate_reverts:
  "dimNeedsUpdate (run quiet (take 2 revert) page0) = True \<and>
   dimNeedsUpdate (run quiet revert page0) = False \<and>
   notifications (run quiet revert page0) = [Notify True, Notify False]"
  by code_simp

end
